theory Spec2Isabelle
  imports Complex_Main
begin

section \<open>Data model (mobile/lib/storage.ts)\<close>

text \<open>
  The offline submission queue of the CIRA mobile client. JavaScript numbers that hold
  counts are modelled as \<open>nat\<close>, millisecond timestamps (\<open>Date.now()\<close>) as \<open>int\<close>, and
  coordinates as \<open>real\<close> (every double is a real number; arithmetic on doubles is not
  real arithmetic, and is a parameter of the model where the code computes with them).
  An optional field (\<open>lastAttempt?\<close>, \<open>error?\<close>) is an \<open>option\<close>. The fields \<open>id\<close> and
  \<open>type\<close> of the source are \<open>item_id\<close> and \<open>rtype\<close> here.
\<close>

datatype severity = Low | Medium | High

record reportData =
  title :: string
  description :: string
  rtype :: string
  severity :: severity
  latitude :: real
  longitude :: real
  addressText :: "string option"
  province :: "string option"
  district :: "string option"
  sector :: "string option"

record SyncQueueItem =
  item_id :: string
  reportData :: reportData
  photos :: "string list"
  retryCount :: nat
  createdAt :: int
  lastAttempt :: "int option"
  error :: "string option"

section \<open>Retry policy (mobile/lib/sync.ts)\<close>

definition MAX_RETRIES :: nat where
  "MAX_RETRIES = 5"

definition RETRY_DELAYS :: "int list" where
  "RETRY_DELAYS = [60000, 120000, 240000, 480000]"

definition getRetryDelay :: "nat \<Rightarrow> int" where
  "getRetryDelay rc =
     (if rc \<ge> length RETRY_DELAYS then RETRY_DELAYS ! (length RETRY_DELAYS - 1)
      else RETRY_DELAYS ! rc)"

text \<open>
  \<open>!item.lastAttempt\<close> is a truthiness test: it holds when the field is absent and also
  when it holds the number 0.
\<close>

definition falsy :: "int option \<Rightarrow> bool" where
  "falsy v = (case v of None \<Rightarrow> True | Some n \<Rightarrow> n = 0)"

text \<open>\<open>shouldRetry now item\<close>: the first argument is the value \<open>Date.now()\<close> returns.\<close>

definition shouldRetry :: "int \<Rightarrow> SyncQueueItem \<Rightarrow> bool" where
  "shouldRetry now item =
     (if retryCount item \<ge> MAX_RETRIES then False
      else if falsy (lastAttempt item) then True
      else (let delay = getRetryDelay (retryCount item);
                timeSinceLastAttempt = now - (case lastAttempt item of Some t \<Rightarrow> t | None \<Rightarrow> 0)
            in timeSinceLastAttempt \<ge> delay))"

subsection \<open>The policy in the words of the specification\<close>

text \<open>
  The schedule of the specification, in milliseconds: 60 s, 120 s, 240 s, 480 s for the
  retry counts 0 to 3, and 480 s from 4 on.
\<close>

definition schedule_spec :: "nat \<Rightarrow> int" where
  "schedule_spec k =
     (if k = 0 then 60 * 1000 else if k = 1 then 120 * 1000
      else if k = 2 then 240 * 1000 else 480 * 1000)"

text \<open>
  Eligibility as the specification words it: the retry budget is not used up, and the
  last attempt is absent or lies at least \<open>schedule_spec\<close> in the past.
\<close>

definition eligible_spec :: "int \<Rightarrow> SyncQueueItem \<Rightarrow> bool" where
  "eligible_spec now item =
     (retryCount item < 5 \<and>
      (case lastAttempt item of None \<Rightarrow> True
       | Some t \<Rightarrow> now - t \<ge> schedule_spec (retryCount item)))"

section \<open>Queue store (mobile/lib/storage.ts)\<close>

text \<open>
  The queue is one serialised array under the key \<open>sync_queue\<close> of AsyncStorage. The
  stored value is modelled by the array it parses to (\<open>None\<close>: the key was never
  written), serialisation being taken as the identity.
\<close>

type_synonym storage = "SyncQueueItem list option"

text \<open>
  A thrown JavaScript error, as far as the code inspects it: \<open>error.code\<close>,
  \<open>error.message\<close>, and whether \<open>error.response\<close> is truthy.
\<close>

record js_error =
  code :: "string option"
  message :: "string option"
  response :: bool

text \<open>
  What AsyncStorage does during one store operation: \<open>getItem\<close> and \<open>setItem\<close> each
  either work or reject with an error. A rejected \<open>setItem\<close> is taken to leave the
  stored value as it was.
\<close>

record storage_io =
  getItemErr :: "js_error option"
  setItemErr :: "js_error option"

definition io_ok :: storage_io where
  "io_ok = \<lparr> getItemErr = None, setItemErr = None \<rparr>"

text \<open>\<open>getSyncQueue\<close> catches every error of the read and returns the empty array.\<close>

definition getSyncQueue :: "storage_io \<Rightarrow> storage \<Rightarrow> SyncQueueItem list" where
  "getSyncQueue io st =
     (case getItemErr io of
        Some e \<Rightarrow> []
      | None \<Rightarrow> (case st of None \<Rightarrow> [] | Some q \<Rightarrow> q))"

definition setItem :: "storage_io \<Rightarrow> SyncQueueItem list \<Rightarrow> storage \<Rightarrow> js_error + storage" where
  "setItem io q st =
     (case setItemErr io of Some e \<Rightarrow> Inl e | None \<Rightarrow> Inr (Some q))"

text \<open>
  Each mutating operation returns what the promise settles to (\<open>Inl\<close>: it rejects with
  the error, which the \<open>catch\<close> block logs and throws again) and the stored value
  afterwards. \<open>addToSyncQueue\<close> takes the id string it builds from the clock and the
  random generator, and the clock value of \<open>createdAt\<close>, as arguments.
\<close>

definition addToSyncQueue ::
  "storage_io \<Rightarrow> string \<Rightarrow> int \<Rightarrow> reportData \<Rightarrow> string list \<Rightarrow> storage
     \<Rightarrow> (js_error + string) \<times> storage" where
  "addToSyncQueue io ident now rd ph st =
     (let queue = getSyncQueue io st;
          item = \<lparr> item_id = ident, reportData = rd, photos = ph, retryCount = 0,
                   createdAt = now, lastAttempt = None, error = None \<rparr>
      in case setItem io (queue @ [item]) st of
           Inl e \<Rightarrow> (Inl e, st)
         | Inr st' \<Rightarrow> (Inr ident, st'))"

definition removeFromSyncQueue ::
  "storage_io \<Rightarrow> string \<Rightarrow> storage \<Rightarrow> (js_error + unit) \<times> storage" where
  "removeFromSyncQueue io ident st =
     (let queue = getSyncQueue io st;
          filtered = filter (\<lambda>item. item_id item \<noteq> ident) queue
      in case setItem io filtered st of
           Inl e \<Rightarrow> (Inl e, st)
         | Inr st' \<Rightarrow> (Inr (), st'))"

text \<open>\<open>Array.prototype.findIndex\<close>: the first index whose element passes, or -1.\<close>

fun findIndex :: "('a \<Rightarrow> bool) \<Rightarrow> 'a list \<Rightarrow> int" where
  "findIndex p [] = -1"
| "findIndex p (x # xs) =
     (if p x then 0 else (let i = findIndex p xs in if i < 0 then -1 else i + 1))"

text \<open>
  \<open>Partial<SyncQueueItem>\<close>: \<open>None\<close> is a key that the object does not have. For the two
  optional fields, \<open>Some None\<close> is the key present with the value \<open>undefined\<close>.
\<close>

record itemUpdates =
  set_item_id :: "string option"
  set_reportData :: "reportData option"
  set_photos :: "string list option"
  set_retryCount :: "nat option"
  set_createdAt :: "int option"
  set_lastAttempt :: "int option option"
  set_error :: "string option option"

definition noUpdates :: itemUpdates where
  "noUpdates = \<lparr> set_item_id = None, set_reportData = None, set_photos = None,
     set_retryCount = None, set_createdAt = None, set_lastAttempt = None, set_error = None \<rparr>"

text \<open>The object spread \<open>{ ...queue[index], ...updates }\<close>.\<close>

definition spread :: "SyncQueueItem \<Rightarrow> itemUpdates \<Rightarrow> SyncQueueItem" where
  "spread item u =
     \<lparr> item_id = (case set_item_id u of None \<Rightarrow> item_id item | Some v \<Rightarrow> v),
       reportData = (case set_reportData u of None \<Rightarrow> reportData item | Some v \<Rightarrow> v),
       photos = (case set_photos u of None \<Rightarrow> photos item | Some v \<Rightarrow> v),
       retryCount = (case set_retryCount u of None \<Rightarrow> retryCount item | Some v \<Rightarrow> v),
       createdAt = (case set_createdAt u of None \<Rightarrow> createdAt item | Some v \<Rightarrow> v),
       lastAttempt = (case set_lastAttempt u of None \<Rightarrow> lastAttempt item | Some v \<Rightarrow> v),
       error = (case set_error u of None \<Rightarrow> error item | Some v \<Rightarrow> v) \<rparr>"

definition updateSyncQueueItem ::
  "storage_io \<Rightarrow> string \<Rightarrow> itemUpdates \<Rightarrow> storage \<Rightarrow> (js_error + unit) \<times> storage" where
  "updateSyncQueueItem io ident updates st =
     (let queue = getSyncQueue io st;
          index = findIndex (\<lambda>item. item_id item = ident) queue
      in if index \<ge> 0 then
           (case setItem io (queue[nat index := spread (queue ! nat index) updates]) st of
              Inl e \<Rightarrow> (Inl e, st)
            | Inr st' \<Rightarrow> (Inr (), st'))
         else (Inr (), st))"

section \<open>Synchronisation (mobile/lib/sync.ts)\<close>

text \<open>\<open>String.prototype.includes\<close>: the second string occurs in the first.\<close>

fun str_includes :: "string \<Rightarrow> string \<Rightarrow> bool" where
  "str_includes [] sub = (sub = [])"
| "str_includes (c # cs) sub = (take (length sub) (c # cs) = sub \<or> str_includes cs sub)"

definition isNetworkError :: "js_error \<Rightarrow> bool" where
  "isNetworkError e =
     (code e = Some ''ECONNABORTED'' \<or>
      code e = Some ''ECONNREFUSED'' \<or>
      (case message e of None \<Rightarrow> False | Some m \<Rightarrow> str_includes m ''Network Error'') \<or>
      (case message e of None \<Rightarrow> False | Some m \<Rightarrow> str_includes m ''timeout'') \<or>
      \<not> response e)"

text \<open>\<open>error.message || fallback\<close>: an absent or empty message gives the fallback.\<close>

definition messageOr :: "string option \<Rightarrow> string \<Rightarrow> string" where
  "messageOr m fallback = (case m of None \<Rightarrow> fallback | Some s \<Rightarrow> if s = [] then fallback else s)"

text \<open>
  \<open>isOnline\<close> (mobile/lib/network.ts): \<open>NetInfo.fetch()\<close> rejects, or resolves to a state
  whose \<open>isConnected\<close> is a boolean or null; \<open>?? false\<close> turns null into false.
\<close>

definition isOnline :: "js_error + bool option \<Rightarrow> js_error + bool" where
  "isOnline fetched =
     (case fetched of
        Inl e \<Rightarrow> Inl e
      | Inr c \<Rightarrow> Inr (case c of None \<Rightarrow> False | Some b \<Rightarrow> b))"

text \<open>
  The world a sync pass acts on: the stored queue, and the calls made to the remote
  client (\<open>createReport\<close> with its payload, \<open>uploadPhoto\<close> with report id and file URI).
\<close>

record world =
  stored :: storage
  createCalls :: "reportData list"
  uploadCalls :: "(string \<times> string) list"

text \<open>
  What the environment answers while one queue item is processed, in the order the code
  asks: the clock at the eligibility check of the loop, the connectivity state, the
  clock at the eligibility check of \<open>syncSingleReport\<close>, the outcome of
  \<open>createReport\<close> (the new report's id, or the error thrown), AsyncStorage during the
  removal after a success, the clock in the \<open>catch\<close> block, and AsyncStorage during the
  store operation of the \<open>catch\<close> block.
\<close>

record answers =
  nowLoop :: int
  netInfo :: "js_error + bool option"
  nowSingle :: int
  created :: "js_error + string"
  removeIo :: storage_io
  nowCatch :: int
  catchIo :: storage_io

record sync_result =
  success :: bool
  errorText :: "string option"

datatype 'a attempt = Returned 'a | Thrown js_error

text \<open>
  The \<open>try\<close> block of \<open>syncSingleReport\<close>. A failed photo upload is caught inside the
  loop over the photos and changes nothing, so the uploads are only recorded.
\<close>

definition trySync :: "answers \<Rightarrow> SyncQueueItem \<Rightarrow> world \<Rightarrow> sync_result attempt \<times> world" where
  "trySync a item w =
     (case isOnline (netInfo a) of
        Inl e \<Rightarrow> (Thrown e, w)
      | Inr online \<Rightarrow>
          if \<not> online then (Returned \<lparr> success = False, errorText = Some ''Offline'' \<rparr>, w)
          else if \<not> shouldRetry (nowSingle a) item then
            (Returned \<lparr> success = False, errorText = Some ''Max retries exceeded'' \<rparr>, w)
          else
            (let w1 = w\<lparr> createCalls := createCalls w @ [reportData item] \<rparr>
             in case created a of
                  Inl e \<Rightarrow> (Thrown e, w1)
                | Inr rid \<Rightarrow>
                    (let w2 = w1\<lparr> uploadCalls := uploadCalls w1 @ map (\<lambda>uri. (rid, uri)) (photos item) \<rparr>
                     in case removeFromSyncQueue (removeIo a) (item_id item) (stored w2) of
                          (Inl e, st) \<Rightarrow> (Thrown e, w2)
                        | (Inr u, st) \<Rightarrow>
                            (Returned \<lparr> success = True, errorText = None \<rparr>, w2\<lparr> stored := st \<rparr>))))"

text \<open>The \<open>catch\<close> block of \<open>syncSingleReport\<close>; it can itself throw.\<close>

definition catchSync ::
  "answers \<Rightarrow> SyncQueueItem \<Rightarrow> js_error \<Rightarrow> world \<Rightarrow> (js_error + sync_result) \<times> world" where
  "catchSync a item e w =
     (if isNetworkError e then
        (let newRetryCount = retryCount item + 1
         in case updateSyncQueueItem (catchIo a) (item_id item)
                   (noUpdates\<lparr> set_retryCount := Some newRetryCount,
                                set_lastAttempt := Some (Some (nowCatch a)),
                                set_error := Some (Some (messageOr (message e) ''Network error'')) \<rparr>)
                   (stored w) of
              (Inl e', st) \<Rightarrow> (Inl e', w)
            | (Inr u, st) \<Rightarrow>
                (Inr \<lparr> success = False, errorText = Some ''Network error - will retry'' \<rparr>,
                 w\<lparr> stored := st \<rparr>))
      else
        (case removeFromSyncQueue (catchIo a) (item_id item) (stored w) of
           (Inl e', st) \<Rightarrow> (Inl e', w)
         | (Inr u, st) \<Rightarrow>
             (Inr \<lparr> success = False, errorText = Some (messageOr (message e) ''Validation error'') \<rparr>,
              w\<lparr> stored := st \<rparr>)))"

definition syncSingleReport ::
  "answers \<Rightarrow> SyncQueueItem \<Rightarrow> world \<Rightarrow> (js_error + sync_result) \<times> world" where
  "syncSingleReport a item w =
     (case trySync a item w of
        (Returned r, w') \<Rightarrow> (Inr r, w')
      | (Thrown e, w') \<Rightarrow> catchSync a item e w')"

record counts =
  synced :: nat
  failed :: nat
  skipped :: nat

text \<open>
  The \<open>for\<close> loop of \<open>syncPendingReports\<close> over the snapshot of the queue; the
  environment's answers for the item at position \<open>i\<close> of the snapshot are \<open>env i\<close>.
  An error thrown by \<open>syncSingleReport\<close> ends the pass.
\<close>

fun syncLoop ::
  "(nat \<Rightarrow> answers) \<Rightarrow> nat \<Rightarrow> SyncQueueItem list \<Rightarrow> counts \<Rightarrow> world
     \<Rightarrow> (js_error + counts) \<times> world" where
  "syncLoop env i [] c w = (Inr c, w)"
| "syncLoop env i (item # rest) c w =
     (if \<not> shouldRetry (nowLoop (env i)) item then
        syncLoop env (Suc i) rest (c\<lparr> skipped := skipped c + 1 \<rparr>) w
      else
        (case syncSingleReport (env i) item w of
           (Inl e, w') \<Rightarrow> (Inl e, w')
         | (Inr result, w') \<Rightarrow>
             if success result then syncLoop env (Suc i) rest (c\<lparr> synced := synced c + 1 \<rparr>) w'
             else syncLoop env (Suc i) rest (c\<lparr> failed := failed c + 1 \<rparr>) w'))"

definition syncPendingReports ::
  "storage_io \<Rightarrow> (nat \<Rightarrow> answers) \<Rightarrow> world \<Rightarrow> (js_error + counts) \<times> world" where
  "syncPendingReports io env w =
     syncLoop env 0 (getSyncQueue io (stored w)) \<lparr> synced = 0, failed = 0, skipped = 0 \<rparr> w"

section \<open>Duplicate reconciliation (mobile/components/ReportFormModal.tsx)\<close>

text \<open>
  The block of \<open>handleSubmit\<close> that runs after a successful online submission. The
  callback of \<open>queue.filter\<close> computes
  \<open>Math.sqrt(Math.pow(a - latitude, 2) + Math.pow(b - longitude, 2)) * 111000\<close> in
  double-precision arithmetic, every operation rounding its result. That computation is
  the parameter \<open>jsDistance\<close> of the model (for the stored coordinates \<open>a\<close>, \<open>b\<close> and the
  submitted ones): real arithmetic does not give its values. The form's type may still
  be null.
\<close>

definition isMatching ::
  "(real \<Rightarrow> real \<Rightarrow> real \<Rightarrow> real \<Rightarrow> real) \<Rightarrow> real \<Rightarrow> real \<Rightarrow> string \<Rightarrow> string \<Rightarrow> string option
     \<Rightarrow> SyncQueueItem \<Rightarrow> bool" where
  "isMatching jsDistance lat lng ttl descr ty item =
     (let distance = jsDistance (latitude (reportData item)) (longitude (reportData item)) lat lng;
          sameTitle = (title (reportData item) = ttl);
          sameDescription = (description (reportData item) = descr);
          sameType = (Some (rtype (reportData item)) = ty)
      in distance < 10 \<and> sameTitle \<and> sameDescription \<and> sameType)"

text \<open>
  The loop \<open>for (const item of matchingItems) await removeFromSyncQueue(item.id)\<close>;
  \<open>ios k\<close> is what AsyncStorage does during the removal number \<open>k\<close>.
\<close>

fun removeMatching ::
  "(nat \<Rightarrow> storage_io) \<Rightarrow> nat \<Rightarrow> SyncQueueItem list \<Rightarrow> storage \<Rightarrow> (js_error + unit) \<times> storage" where
  "removeMatching ios k [] st = (Inr (), st)"
| "removeMatching ios k (item # rest) st =
     (case removeFromSyncQueue (ios k) (item_id item) st of
        (Inl e, st') \<Rightarrow> (Inl e, st')
      | (Inr u, st') \<Rightarrow> removeMatching ios (Suc k) rest st')"

text \<open>
  The whole \<open>try\<close> block; its \<open>catch\<close> logs a warning and goes on, so only the stored
  value is returned.
\<close>

definition cleanSyncQueue ::
  "storage_io \<Rightarrow> (nat \<Rightarrow> storage_io) \<Rightarrow> (real \<Rightarrow> real \<Rightarrow> real \<Rightarrow> real \<Rightarrow> real)
     \<Rightarrow> real \<Rightarrow> real \<Rightarrow> string \<Rightarrow> string \<Rightarrow> string option \<Rightarrow> storage \<Rightarrow> storage" where
  "cleanSyncQueue io ios jsDistance lat lng ttl descr ty st =
     (let queue = getSyncQueue io st;
          matchingItems = filter (isMatching jsDistance lat lng ttl descr ty) queue
      in snd (removeMatching ios 0 matchingItems st))"

section \<open>The coordinating hook (mobile/hooks/useOfflineSync.ts)\<close>

text \<open>
  The callbacks \<open>performSync\<close> and \<open>syncNow\<close> are closures over the constants of the
  render that created them: \<open>isConnected\<close> (boolean or null) and \<open>isSyncing\<close>.
\<close>

record render =
  isConnected :: "bool option"
  isSyncing :: bool

text \<open>
  The state behind the hook: the cell that \<open>setIsSyncing\<close> writes and the next render
  reads, the other two cells, and the calls of \<open>syncPendingReports\<close> made so far and
  still running.
\<close>

record hook =
  isSyncingCell :: bool
  lastSyncTime :: "int option"
  pendingCount :: nat
  passesStarted :: nat
  passesRunning :: nat

text \<open>
  \<open>performSync\<close> up to \<open>await syncPendingReports()\<close>, where it suspends with the pass
  running.
\<close>

definition performSync_begin :: "render \<Rightarrow> hook \<Rightarrow> hook" where
  "performSync_begin r h =
     (if isConnected r \<noteq> Some True \<or> isSyncing r then h
      else h\<lparr> isSyncingCell := True,
               passesStarted := passesStarted h + 1,
               passesRunning := passesRunning h + 1 \<rparr>)"

text \<open>
  The rest of \<open>performSync\<close>, once the pass has settled: with a result, the time and the
  pending count are stored; in both cases \<open>finally\<close> clears the cell.
\<close>

definition performSync_end :: "bool \<Rightarrow> int \<Rightarrow> nat \<Rightarrow> hook \<Rightarrow> hook" where
  "performSync_end resolved now queueLength h =
     (let h1 = (if resolved then h\<lparr> lastSyncTime := Some now, pendingCount := queueLength \<rparr> else h)
      in h1\<lparr> isSyncingCell := False, passesRunning := passesRunning h1 - 1 \<rparr>)"

definition syncNow :: "render \<Rightarrow> hook \<Rightarrow> hook" where
  "syncNow r h = (if isSyncing r then h else performSync_begin r h)"

text \<open>A render reads the cell and the network status, and creates new callbacks.\<close>

definition rerender :: "bool option \<Rightarrow> hook \<Rightarrow> render" where
  "rerender conn h = \<lparr> isConnected = conn, isSyncing = isSyncingCell h \<rparr>"

definition idleHook :: hook where
  "idleHook = \<lparr> isSyncingCell = False, lastSyncTime = None, pendingCount = 0,
     passesStarted = 0, passesRunning = 0 \<rparr>"

section \<open>The queue, item by item\<close>

subsection \<open>A pass, item by item\<close>





definition submits :: "answers \<Rightarrow> SyncQueueItem \<Rightarrow> bool" where
  "submits a item =
     (shouldRetry (nowLoop a) item \<and> isOnline (netInfo a) = Inr True \<and> shouldRetry (nowSingle a) item)"



definition submitted :: "(nat \<Rightarrow> answers) \<Rightarrow> nat \<Rightarrow> SyncQueueItem list \<Rightarrow> reportData list" where
  "submitted env i q = map (\<lambda>(k, item). reportData item) (filter (\<lambda>(k, item). submits (env k) item) (enumerate i q))"




subsection \<open>The retry count over the life of an item\<close>

text \<open>
  Between two states of the queue, no retry count has decreased: an item of the later
  queue has a retry count at least that of the item with the same id in the earlier one.
\<close>

definition retryNondecreasing :: "SyncQueueItem list \<Rightarrow> SyncQueueItem list \<Rightarrow> bool" where
  "retryNondecreasing q q' =
     (\<forall>x\<in>set q. \<forall>y\<in>set q'. item_id y = item_id x \<longrightarrow> retryCount x \<le> retryCount y)"

text \<open>
  The invariant of the loop: every stored item stems from an item of the snapshot with
  the same id and no larger retry count, and is that very item while its turn has not
  come.
\<close>

definition stemsFrom :: "SyncQueueItem list \<Rightarrow> SyncQueueItem list \<Rightarrow> SyncQueueItem list \<Rightarrow> bool" where
  "stemsFrom q0 rest cur =
     (\<forall>y\<in>set cur. \<exists>x\<in>set q0. item_id x = item_id y \<and> retryCount x \<le> retryCount y \<and>
        (x \<in> set rest \<longrightarrow> y = x))"

text \<open>What processing the item \<open>x\<close> can do to the stored queue.\<close>

definition effect :: "SyncQueueItem \<Rightarrow> SyncQueueItem list \<Rightarrow> SyncQueueItem list \<Rightarrow> bool" where
  "effect x cur cur' =
     (set cur' \<subseteq> set cur \<or>
      (\<exists>n y. n < length cur \<and> item_id (cur ! n) = item_id x \<and> item_id y = item_id x \<and>
         retryCount y = retryCount x + 1 \<and> cur' = cur[n := y]))"

subsection \<open>The failure classes in the words of the specification\<close>

text \<open>
  The network class as the specification lists it: a timeout (the client's error code
  ECONNABORTED), a refused connection (ECONNREFUSED), or no response received.
\<close>

definition networkClass_spec :: "js_error \<Rightarrow> bool" where
  "networkClass_spec e =
     (code e = Some ''ECONNABORTED'' \<or> code e = Some ''ECONNREFUSED'' \<or> \<not> response e)"

section \<open>Concrete data\<close>

text \<open>Queue items, errors and environments on which the definitions are evaluated.\<close>

definition pothole :: reportData where
  "pothole = \<lparr> title = ''Pothole'', description = ''Deep hole'', rtype = ''pothole'',
     severity = High, latitude = -1.9441, longitude = 30.0619,
     addressText = None, province = None, district = None, sector = None \<rparr>"

definition mkItem :: "string \<Rightarrow> nat \<Rightarrow> int option \<Rightarrow> SyncQueueItem" where
  "mkItem i rc la = \<lparr> item_id = i, reportData = pothole, photos = [], retryCount = rc,
     createdAt = 1700000000000, lastAttempt = la, error = None \<rparr>"

definition storageError :: js_error where
  "storageError = \<lparr> code = None, message = Some ''Failed to read'', response = False \<rparr>"

definition timeoutError :: js_error where
  "timeoutError = \<lparr> code = Some ''ECONNABORTED'', message = Some ''timeout of 30000ms exceeded'', response = False \<rparr>"

definition validationError :: js_error where
  "validationError = \<lparr> code = Some ''ERR_BAD_REQUEST'', message = Some ''Request failed with status code 400'', response = True \<rparr>"

definition answersWith :: "bool \<Rightarrow> js_error + string \<Rightarrow> answers" where
  "answersWith online c = \<lparr> nowLoop = 1700000100000, netInfo = Inr (Some online), nowSingle = 1700000100001,
     created = c, removeIo = io_ok, nowCatch = 1700000100002, catchIo = io_ok \<rparr>"

definition world0 :: "SyncQueueItem list \<Rightarrow> world" where
  "world0 q = \<lparr> stored = Some q, createCalls = [], uploadCalls = [] \<rparr>"

definition demoQueue :: "SyncQueueItem list" where
  "demoQueue = [mkItem ''sync_a'' 0 None, mkItem ''sync_b'' 5 (Some 1700000000000),
                mkItem ''sync_c'' 0 None, mkItem ''sync_d'' 0 None, mkItem ''sync_e'' 0 None]"

definition demoEnv :: "nat \<Rightarrow> answers" where
  "demoEnv i = (if i = 0 then answersWith False (Inr ''report_0'')
                else if i = 2 then answersWith True (Inl validationError)
                else if i = 3 then answersWith True (Inl timeoutError)
                else answersWith True (Inr ''report_1''))"

text \<open>A 400 response to a report whose validation message mentions a field named timeout.\<close>

definition timeoutFieldError :: js_error where
  "timeoutFieldError = \<lparr> code = Some ''ERR_BAD_REQUEST'',
     message = Some ''Validation failed: timeout must be a number'', response = True \<rparr>"

text \<open>
  Three passes that overlap. Pass A reads the queue first and its request hangs; pass B
  fails the item at once; pass C, started two minutes later, fails it again; then the
  request of pass A times out, and the loop of pass A, still holding the snapshot it
  read at the start, runs its \<open>catch\<close> block on the queue that B and C have written.
\<close>

definition answersAt :: "int \<Rightarrow> int \<Rightarrow> js_error + string \<Rightarrow> answers" where
  "answersAt t t' c = \<lparr> nowLoop = t, netInfo = Inr (Some True), nowSingle = t,
     created = c, removeIo = io_ok, nowCatch = t', catchIo = io_ok \<rparr>"

definition noCounts :: counts where
  "noCounts = \<lparr> synced = 0, failed = 0, skipped = 0 \<rparr>"

definition raceStart :: world where
  "raceStart = world0 [mkItem ''sync_a'' 0 None]"

definition afterPassB :: world where
  "afterPassB = snd (syncPendingReports io_ok (\<lambda>i. answersAt 1700000000500 1700000001000 (Inl timeoutError)) raceStart)"

definition afterPassC :: world where
  "afterPassC = snd (syncPendingReports io_ok (\<lambda>i. answersAt 1700000125000 1700000126000 (Inl timeoutError)) afterPassB)"

definition afterPassA :: world where
  "afterPassA = snd (syncLoop (\<lambda>i. answersAt 1700000000000 1700000140000 (Inl timeoutError)) 0
      (getSyncQueue io_ok (stored raceStart)) noCounts afterPassC)"

section \<open>Retry policy: results\<close>

lemma getRetryDelay_schedule: "getRetryDelay k = schedule_spec k"
proof -
  consider "k = 0" | "k = 1" | "k = 2" | "k = 3" | "k \<ge> 4" by linarith
  then show ?thesis
    by cases (simp_all add: getRetryDelay_def RETRY_DELAYS_def schedule_spec_def)
qed

text \<open>
  The full behaviour of \<open>shouldRetry\<close>: the truthiness test \<open>!item.lastAttempt\<close> passes for
  an absent field and for the number 0. The code writes \<open>lastAttempt\<close> in one place only,
  as \<open>Date.now()\<close> after a failed attempt, so a stored 0 does not occur.
\<close>

lemma shouldRetry_cases:
  "shouldRetry now item =
     (eligible_spec now item \<or> (retryCount item < 5 \<and> lastAttempt item = Some 0))"
  by (auto simp: shouldRetry_def eligible_spec_def MAX_RETRIES_def falsy_def
      getRetryDelay_schedule Let_def split: option.splits)

text \<open>
  Claim C1: for every queue item with retry count \<open>k\<close> whose \<open>lastAttempt\<close> is absent or a
  clock value \<open>t\<close> (not the number 0, which no clock writes), and for every current time,
  \<open>shouldRetry\<close> deems the item eligible if and only if \<open>k < 5\<close> and \<open>t\<close> is absent or
  \<open>now - t \<ge> schedule(k)\<close>, where the schedule is 60 s, 120 s, 240 s, 480 s for \<open>k\<close> from 0
  to 3 and 480 s for every \<open>k \<ge> 4\<close>.
\<close>

theorem C1_shouldRetry_eligible:
  "lastAttempt item \<noteq> Some 0 \<Longrightarrow>
   shouldRetry now item =
     (retryCount item < 5 \<and>
      (case lastAttempt item of None \<Rightarrow> True
       | Some t \<Rightarrow> now - t \<ge> schedule_spec (retryCount item)))"
  using shouldRetry_cases [of now item]
  by (simp add: eligible_spec_def)

theorem C1_shouldRetry_eligible_witness:
  "lastAttempt (mkItem ''sync_a'' 1 (Some 1700000000000)) \<noteq> Some 0 \<and>
   \<not> shouldRetry 1700000119999 (mkItem ''sync_a'' 1 (Some 1700000000000)) \<and>
   shouldRetry 1700000120000 (mkItem ''sync_a'' 1 (Some 1700000000000)) \<and>
   \<not> shouldRetry 1700000999999 (mkItem ''sync_a'' 5 (Some 1700000000000))"
  using C1_shouldRetry_eligible [of "mkItem ''sync_a'' 1 (Some 1700000000000)" 1700000119999]
    C1_shouldRetry_eligible [of "mkItem ''sync_a'' 1 (Some 1700000000000)" 1700000120000]
    C1_shouldRetry_eligible [of "mkItem ''sync_a'' 5 (Some 1700000000000)" 1700000999999]
  by (simp add: mkItem_def schedule_spec_def)

text \<open>
  Claim C2, as stated, fails: an item without \<open>lastAttempt\<close> whose retry count has
  reached \<open>MAX_RETRIES\<close> is not eligible.
\<close>

theorem C2_counterexample:
  "lastAttempt (mkItem ''sync_a'' 5 None) = None \<and> \<not> shouldRetry 10 (mkItem ''sync_a'' 5 None)"
  by (simp add: shouldRetry_def mkItem_def MAX_RETRIES_def)

text \<open>
  Claim C2, amended: an item whose \<open>lastAttempt\<close> is absent is eligible exactly when its
  retry count is below \<open>MAX_RETRIES\<close> = 5, whatever the current time.
\<close>

theorem C2_absent_lastAttempt:
  "lastAttempt item = None \<Longrightarrow> shouldRetry now item = (retryCount item < 5)"
  by (auto simp: shouldRetry_def MAX_RETRIES_def falsy_def)

theorem C2_absent_lastAttempt_witness:
  "lastAttempt (mkItem ''sync_a'' 0 None) = None \<and> shouldRetry 10 (mkItem ''sync_a'' 0 None)"
  using C2_absent_lastAttempt [of "mkItem ''sync_a'' 0 None" 10]
  by (simp add: mkItem_def)

section \<open>Queue store: results\<close>

lemma findIndex_neg_iff: "findIndex p xs < 0 \<longleftrightarrow> (\<forall>x\<in>set xs. \<not> p x)"
  by (induction xs) (auto simp: Let_def)

lemma findIndex_append_hit:
  "\<forall>x\<in>set pre. \<not> p x \<Longrightarrow> p y \<Longrightarrow> findIndex p (pre @ y # rest) = int (length pre)"
  by (induction pre) (auto simp: Let_def)

lemma findIndex_bound: "findIndex p xs < int (length xs)"
  by (induction xs) (auto simp: Let_def)

lemma findIndex_hit: "findIndex p xs \<ge> 0 \<Longrightarrow> p (xs ! nat (findIndex p xs))"
proof (induction xs)
  case Nil
  then show ?case by simp
next
  case (Cons a xs)
  show ?case
  proof (cases "p a")
    case True
    then show ?thesis by simp
  next
    case False
    with Cons.prems have nn: "0 \<le> findIndex p xs"
      by (simp add: Let_def split: if_splits)
    then have "nat (findIndex p xs + 1) = Suc (nat (findIndex p xs))" by simp
    with False nn Cons.IH show ?thesis by (simp add: Let_def)
  qed
qed

text \<open>
  Claim C10: for an id that the stored queue does not hold, \<open>updateSyncQueueItem\<close>
  resolves without an error and leaves the stored value as it was, whatever AsyncStorage
  does during the call: nothing is written.
\<close>

theorem C10_update_missing_id:
  "ident \<notin> item_id ` set (getSyncQueue io_ok st) \<Longrightarrow>
   updateSyncQueueItem io ident updates st = (Inr (), st)"
proof -
  assume a: "ident \<notin> item_id ` set (getSyncQueue io_ok st)"
  have "set (getSyncQueue io st) \<subseteq> set (getSyncQueue io_ok st)"
    by (auto simp: getSyncQueue_def io_ok_def split: option.splits)
  with a have "\<forall>x\<in>set (getSyncQueue io st). \<not> item_id x = ident" by auto
  then have "findIndex (\<lambda>item. item_id item = ident) (getSyncQueue io st) < 0"
    by (simp only: findIndex_neg_iff)
  then show ?thesis
    by (simp add: updateSyncQueueItem_def Let_def)
qed

theorem C10_update_missing_id_witness:
  "''sync_b'' \<notin> item_id ` set (getSyncQueue io_ok (Some [mkItem ''sync_a'' 0 None])) \<and>
   updateSyncQueueItem io_ok ''sync_b'' (noUpdates\<lparr> set_retryCount := Some 3 \<rparr>)
     (Some [mkItem ''sync_a'' 0 None]) = (Inr (), Some [mkItem ''sync_a'' 0 None])"
  using C10_update_missing_id [of "''sync_b''" "Some [mkItem ''sync_a'' 0 None]" io_ok
      "noUpdates\<lparr> set_retryCount := Some 3 \<rparr>"]
  by (simp add: getSyncQueue_def io_ok_def mkItem_def)

text \<open>
  Claim C8, as stated, fails: when the read of AsyncStorage fails, \<open>getSyncQueue\<close>
  returns the empty array instead of an error, and \<open>addToSyncQueue\<close>, which reads through
  it, resolves with the new id.
\<close>

theorem C8_counterexample:
  "getSyncQueue \<lparr> getItemErr = Some storageError, setItemErr = None \<rparr>
     (Some [mkItem ''sync_a'' 0 None]) = [] \<and>
   addToSyncQueue \<lparr> getItemErr = Some storageError, setItemErr = None \<rparr> ''sync_b'' 1700000000500
     pothole [] (Some [mkItem ''sync_a'' 0 None])
   = (Inr ''sync_b'', Some [\<lparr> item_id = ''sync_b'', reportData = pothole, photos = [],
        retryCount = 0, createdAt = 1700000000500, lastAttempt = None, error = None \<rparr>])"
  by (simp add: getSyncQueue_def addToSyncQueue_def setItem_def)

text \<open>
  Claim C8, amended: when the write to AsyncStorage fails, \<open>addToSyncQueue\<close>,
  \<open>removeFromSyncQueue\<close> and \<open>updateSyncQueueItem\<close> reject with that error and the stored
  queue is unchanged (\<open>updateSyncQueueItem\<close> writes only when it finds the id in the queue
  it read, and resolves otherwise); \<open>getSyncQueue\<close> never rejects: when the read fails it
  returns the empty array.
\<close>

theorem C8_write_failure_propagates:
  "setItemErr io = Some e \<Longrightarrow>
     addToSyncQueue io ident now rd ph st = (Inl e, st) \<and>
     removeFromSyncQueue io ident st = (Inl e, st) \<and>
     updateSyncQueueItem io ident updates st =
       (if ident \<in> item_id ` set (getSyncQueue io st) then Inl e else Inr (), st) \<and>
     (getItemErr io \<noteq> None \<longrightarrow> getSyncQueue io st = [])"
proof -
  assume w: "setItemErr io = Some e"
  have idx: "(0 \<le> findIndex (\<lambda>item. item_id item = ident) (getSyncQueue io st))
      = (ident \<in> item_id ` set (getSyncQueue io st))"
    using findIndex_neg_iff [of "\<lambda>item. item_id item = ident" "getSyncQueue io st"]
    by auto
  have "addToSyncQueue io ident now rd ph st = (Inl e, st)"
    using w by (simp add: addToSyncQueue_def setItem_def)
  moreover have "removeFromSyncQueue io ident st = (Inl e, st)"
    using w by (simp add: removeFromSyncQueue_def setItem_def)
  moreover have "updateSyncQueueItem io ident updates st =
       (if ident \<in> item_id ` set (getSyncQueue io st) then Inl e else Inr (), st)"
    using w idx by (simp add: updateSyncQueueItem_def setItem_def Let_def)
  moreover have "getItemErr io \<noteq> None \<longrightarrow> getSyncQueue io st = []"
    by (auto simp: getSyncQueue_def)
  ultimately show ?thesis by blast
qed

theorem C8_write_failure_propagates_witness:
  "setItemErr \<lparr> getItemErr = Some storageError, setItemErr = Some storageError \<rparr> = Some storageError \<and>
   getItemErr \<lparr> getItemErr = Some storageError, setItemErr = Some storageError \<rparr> \<noteq> None \<and>
   removeFromSyncQueue \<lparr> getItemErr = Some storageError, setItemErr = Some storageError \<rparr> ''sync_a''
     (Some [mkItem ''sync_a'' 0 None]) = (Inl storageError, Some [mkItem ''sync_a'' 0 None]) \<and>
   getSyncQueue \<lparr> getItemErr = Some storageError, setItemErr = Some storageError \<rparr>
     (Some [mkItem ''sync_a'' 0 None]) = []"
  using C8_write_failure_propagates [of "\<lparr> getItemErr = Some storageError, setItemErr = Some storageError \<rparr>"
      storageError "''sync_a''" 0 pothole "[]" "Some [mkItem ''sync_a'' 0 None]" noUpdates]
  by simp

section \<open>Synchronisation: results\<close>

lemma getSyncQueue_ok [simp]: "getSyncQueue io_ok (Some q) = q" "getSyncQueue io_ok None = []"
  by (simp_all add: getSyncQueue_def io_ok_def)

lemma setItem_ok [simp]: "setItem io_ok q st = Inr (Some q)"
  by (simp add: setItem_def io_ok_def)

lemma distinct_ids_mid:
  assumes "distinct (map item_id (pre @ x # rest))"
  shows "\<forall>y\<in>set pre. item_id y \<noteq> item_id x" and "\<forall>y\<in>set rest. item_id y \<noteq> item_id x"
proof -
  from assms have a: "item_id x \<notin> item_id ` set pre" and b: "item_id x \<notin> item_id ` set rest"
    by auto
  show "\<forall>y\<in>set pre. item_id y \<noteq> item_id x"
    using a by (metis imageI)
  show "\<forall>y\<in>set rest. item_id y \<noteq> item_id x"
    using b by (metis imageI)
qed

lemma remove_ok_mid:
  assumes "distinct (map item_id (pre @ x # rest))"
  shows "removeFromSyncQueue io_ok (item_id x) (Some (pre @ x # rest)) = (Inr (), Some (pre @ rest))"
proof -
  have "filter (\<lambda>item. item_id item \<noteq> item_id x) pre = pre"
    using distinct_ids_mid(1) [OF assms] by (simp add: filter_id_conv)
  moreover have "filter (\<lambda>item. item_id item \<noteq> item_id x) rest = rest"
    using distinct_ids_mid(2) [OF assms] by (simp add: filter_id_conv)
  ultimately show ?thesis
    by (simp add: removeFromSyncQueue_def)
qed

lemma update_ok_mid:
  assumes "distinct (map item_id (pre @ x # rest))"
  shows "updateSyncQueueItem io_ok (item_id x) u (Some (pre @ x # rest))
         = (Inr (), Some (pre @ spread x u # rest))"
proof -
  have "\<forall>y\<in>set pre. \<not> item_id y = item_id x"
    using distinct_ids_mid(1) [OF assms] by simp
  then have "findIndex (\<lambda>item. item_id item = item_id x) (pre @ x # rest) = int (length pre)"
    by (rule findIndex_append_hit) simp
  then show ?thesis
    by (simp add: updateSyncQueueItem_def Let_def)
qed

lemma spread_retry:
  "spread item (noUpdates\<lparr> set_retryCount := Some n, set_lastAttempt := Some (Some t),
       set_error := Some (Some m) \<rparr>)
   = item\<lparr> retryCount := n, lastAttempt := Some t, error := Some m \<rparr>"
  by (simp add: spread_def noUpdates_def)

lemmas eval_defs = syncPendingReports_def syncSingleReport_def trySync_def catchSync_def
  removeFromSyncQueue_def updateSyncQueueItem_def shouldRetry_def MAX_RETRIES_def falsy_def
  getRetryDelay_def RETRY_DELAYS_def isOnline_def isNetworkError_def messageOr_def
  answersWith_def world0_def mkItem_def validationError_def timeoutError_def
  spread_def noUpdates_def Let_def

lemma isNetworkError_explicit:
  "isNetworkError e =
     (code e = Some ''ECONNABORTED'' \<or> code e = Some ''ECONNREFUSED'' \<or> \<not> response e \<or>
         (case message e of None \<Rightarrow> False
          | Some m \<Rightarrow> str_includes m ''Network Error'' \<or> str_includes m ''timeout''))"
  by (auto simp: isNetworkError_def split: option.splits)

text \<open>
  Claim C3, as stated, fails in three ways. A 400 response whose message contains the
  word "timeout" belongs to none of the claim's network classes, yet the item is kept
  and its retry count raised. When the read of AsyncStorage fails in the \<open>catch\<close> block, a
  timeout leaves the stored item as it was. When the stored item has changed since the
  pass read it (retry count 1 against 0 in the copy), a timeout does not raise the
  stored count.
\<close>

theorem C3_counterexample:
  "\<not> networkClass_spec timeoutFieldError \<and>
   syncSingleReport (answersWith True (Inl timeoutFieldError)) (mkItem ''sync_a'' 0 None)
     (world0 [mkItem ''sync_a'' 0 None])
   = (Inr \<lparr> success = False, errorText = Some ''Network error - will retry'' \<rparr>,
      \<lparr> stored = Some [(mkItem ''sync_a'' 0 None)\<lparr> retryCount := 1, lastAttempt := Some 1700000100002,
                         error := Some ''Validation failed: timeout must be a number'' \<rparr>],
        createCalls = [pothole], uploadCalls = [] \<rparr>) \<and>
   networkClass_spec timeoutError \<and>
   syncSingleReport
     ((answersWith True (Inl timeoutError))\<lparr> catchIo := \<lparr> getItemErr = Some storageError, setItemErr = None \<rparr> \<rparr>)
     (mkItem ''sync_a'' 0 None) (world0 [mkItem ''sync_a'' 0 None])
   = (Inr \<lparr> success = False, errorText = Some ''Network error - will retry'' \<rparr>,
      \<lparr> stored = Some [mkItem ''sync_a'' 0 None], createCalls = [pothole], uploadCalls = [] \<rparr>) \<and>
   syncSingleReport (answersWith True (Inl timeoutError)) (mkItem ''sync_a'' 0 None)
     (world0 [(mkItem ''sync_a'' 0 None)\<lparr> retryCount := 1, lastAttempt := Some 1700000100000 \<rparr>])
   = (Inr \<lparr> success = False, errorText = Some ''Network error - will retry'' \<rparr>,
      \<lparr> stored = Some [(mkItem ''sync_a'' 0 None)\<lparr> retryCount := 1, lastAttempt := Some 1700000100002,
                         error := Some ''timeout of 30000ms exceeded'' \<rparr>],
        createCalls = [pothole], uploadCalls = [] \<rparr>)"
  by (simp add: networkClass_spec_def timeoutFieldError_def storageError_def getSyncQueue_def
      setItem_def io_ok_def eval_defs)

text \<open>
  Claim C3, amended: an item that the stored queue, with distinct ids, holds exactly as
  the pass read it is submitted while the device is online and the item eligible,
  \<open>createReport\<close> throws, and AsyncStorage works in the \<open>catch\<close> block. If the error has
  the code ECONNABORTED or ECONNREFUSED, or no response, or a message containing
  "Network Error" or "timeout" (whatever response it carries), the item stays at its
  place in the queue with \<open>retryCount\<close> incremented by exactly one, \<open>lastAttempt\<close> set to the
  current time and the error's message (or "Network error" when it has none) stored,
  all other items unchanged; for every other error the item is removed, all other
  items stay, and no item with its id is left.
\<close>

theorem C3_failure_classes:
  assumes "stored w = Some (pre @ item # rest)"
    and "distinct (map item_id (pre @ item # rest))"
    and "isOnline (netInfo a) = Inr True"
    and "shouldRetry (nowSingle a) item"
    and "created a = Inl e"
    and "catchIo a = io_ok"
  shows "syncSingleReport a item w =
     (if code e = Some ''ECONNABORTED'' \<or> code e = Some ''ECONNREFUSED'' \<or> \<not> response e \<or>
         (case message e of None \<Rightarrow> False
          | Some m \<Rightarrow> str_includes m ''Network Error'' \<or> str_includes m ''timeout'')
      then
        (Inr \<lparr> success = False, errorText = Some ''Network error - will retry'' \<rparr>,
         w\<lparr> createCalls := createCalls w @ [reportData item],
            stored := Some (pre @ item\<lparr> retryCount := retryCount item + 1,
                                        lastAttempt := Some (nowCatch a),
                                        error := Some (messageOr (message e) ''Network error'') \<rparr> # rest) \<rparr>)
      else
        (Inr \<lparr> success = False, errorText = Some (messageOr (message e) ''Validation error'') \<rparr>,
         w\<lparr> createCalls := createCalls w @ [reportData item], stored := Some (pre @ rest) \<rparr>))
     \<and> item_id item \<notin> item_id ` set (pre @ rest)"
proof -
  have t: "trySync a item w = (Thrown e, w\<lparr> createCalls := createCalls w @ [reportData item] \<rparr>)"
    using assms(3-5) by (simp add: trySync_def Let_def)
   have i: "item_id item \<notin> item_id ` set (pre @ rest)"
    using assms(2) by auto
  have c: "catchSync a item e (w\<lparr> createCalls := createCalls w @ [reportData item] \<rparr>) =
     (if isNetworkError e then
        (Inr \<lparr> success = False, errorText = Some ''Network error - will retry'' \<rparr>,
         w\<lparr> createCalls := createCalls w @ [reportData item],
            stored := Some (pre @ item\<lparr> retryCount := retryCount item + 1,
                                        lastAttempt := Some (nowCatch a),
                                        error := Some (messageOr (message e) ''Network error'') \<rparr> # rest) \<rparr>)
      else
        (Inr \<lparr> success = False, errorText = Some (messageOr (message e) ''Validation error'') \<rparr>,
         w\<lparr> createCalls := createCalls w @ [reportData item], stored := Some (pre @ rest) \<rparr>))"
    using assms(1,2,6)
    by (simp add: catchSync_def update_ok_mid remove_ok_mid spread_retry
        del: distinct_append map_append)
  show ?thesis
    using t c i unfolding isNetworkError_explicit [symmetric] by (simp add: syncSingleReport_def)
qed

lemma isNetworkError_examples:
  "isNetworkError timeoutError" "\<not> isNetworkError validationError" "isNetworkError storageError"
  by (simp_all add: isNetworkError_def timeoutError_def validationError_def storageError_def)

theorem C3_failure_classes_witness:
  "syncSingleReport (answersWith True (Inl timeoutError)) (mkItem ''sync_a'' 0 None)
     (world0 [mkItem ''sync_a'' 0 None, mkItem ''sync_b'' 0 None])
   = (Inr \<lparr> success = False, errorText = Some ''Network error - will retry'' \<rparr>,
      \<lparr> stored = Some [(mkItem ''sync_a'' 0 None)\<lparr> retryCount := 1, lastAttempt := Some 1700000100002,
                         error := Some ''timeout of 30000ms exceeded'' \<rparr>, mkItem ''sync_b'' 0 None],
        createCalls = [pothole], uploadCalls = [] \<rparr>)
   \<and> syncSingleReport (answersWith True (Inl validationError)) (mkItem ''sync_a'' 0 None)
     (world0 [mkItem ''sync_a'' 0 None, mkItem ''sync_b'' 0 None])
   = (Inr \<lparr> success = False, errorText = Some ''Request failed with status code 400'' \<rparr>,
      \<lparr> stored = Some [mkItem ''sync_b'' 0 None], createCalls = [pothole], uploadCalls = [] \<rparr>)"
proof -
  have d: "distinct (map item_id ([] @ mkItem ''sync_a'' 0 None # [mkItem ''sync_b'' 0 None]))"
    by (simp add: mkItem_def)
  have s: "stored (world0 [mkItem ''sync_a'' 0 None, mkItem ''sync_b'' 0 None])
      = Some ([] @ mkItem ''sync_a'' 0 None # [mkItem ''sync_b'' 0 None])"
    by (simp add: world0_def)
  have e: "shouldRetry 1700000100001 (mkItem ''sync_a'' 0 None)"
    by (simp add: shouldRetry_def mkItem_def MAX_RETRIES_def falsy_def)
  show ?thesis
    using C3_failure_classes [OF s d, of "answersWith True (Inl timeoutError)" timeoutError]
      C3_failure_classes [OF s d, of "answersWith True (Inl validationError)" validationError]
      e
    by (simp add: answersWith_def isOnline_def world0_def messageOr_def timeoutError_def
        validationError_def mkItem_def)
qed










lemma submitted_Cons:
  "submitted env i (x # xs) = (if submits (env i) x then [reportData x] else []) @ submitted env (Suc i) xs"
  by (simp add: submitted_def)



lemma enumerate_nth: "enumerate 0 q = map (\<lambda>i. (i, q ! i)) [0..<length q]"
  by (rule nth_equalityI) (simp_all add: nth_enumerate_eq)


lemma submitted_nth:
  "submitted env 0 q =
     map (\<lambda>i. reportData (q ! i)) (filter (\<lambda>i. submits (env i) (q ! i)) [0..<length q])"
  by (simp add: submitted_def enumerate_nth filter_map comp_def)





lemma catchSync_createCalls:
  "catchSync a x e w = (r, w') \<Longrightarrow> createCalls w' = createCalls w"
  by (auto simp: catchSync_def Let_def split: if_splits prod.splits sum.splits)

lemma trySync_createCalls:
  "trySync a x w = (r, w') \<Longrightarrow>
   createCalls w' = createCalls w @ (if isOnline (netInfo a) = Inr True \<and> shouldRetry (nowSingle a) x
                                     then [reportData x] else [])"
  by (auto simp: trySync_def Let_def split: if_splits prod.splits sum.splits)

lemma syncSingleReport_createCalls:
  assumes "syncSingleReport a x w = (r, w')"
  shows "createCalls w' = createCalls w @ (if isOnline (netInfo a) = Inr True \<and> shouldRetry (nowSingle a) x
                                     then [reportData x] else [])"
proof -
  obtain t w1 where t: "trySync a x w = (t, w1)" by (cases "trySync a x w")
  note c1 = trySync_createCalls [OF t]
  show ?thesis
  proof (cases t)
    case (Returned res)
    with assms t have "w' = w1" by (simp add: syncSingleReport_def)
    with c1 show ?thesis by simp
  next
    case (Thrown e)
    with assms t have "catchSync a x e w1 = (r, w')" by (simp add: syncSingleReport_def)
    from catchSync_createCalls [OF this] c1 show ?thesis by simp
  qed
qed

lemma syncLoop_createCalls:
  "syncLoop env i rest c w = (Inr c', w') \<Longrightarrow> createCalls w' = createCalls w @ submitted env i rest"
proof (induction rest arbitrary: i c w)
  case Nil
  then show ?case by (simp add: submitted_def)
next
  case (Cons x rest)
  show ?case
  proof (cases "shouldRetry (nowLoop (env i)) x")
    case False
    with Cons.prems have "syncLoop env (Suc i) rest (c\<lparr> skipped := skipped c + 1 \<rparr>) w = (Inr c', w')"
      by simp
    from Cons.IH [OF this] False show ?thesis
      by (simp add: submitted_Cons submits_def)
  next
    case True
    obtain r1 w1 where s: "syncSingleReport (env i) x w = (r1, w1)"
      by (cases "syncSingleReport (env i) x w")
    from syncSingleReport_createCalls [OF s] True
    have c1: "createCalls w1 = createCalls w @ (if submits (env i) x then [reportData x] else [])"
      by (simp add: submits_def)
    show ?thesis
    proof (cases r1)
      case (Inl e)
      with True s Cons.prems show ?thesis by simp
    next
      case (Inr res)
      let ?c1 = "if success res then c\<lparr> synced := synced c + 1 \<rparr> else c\<lparr> failed := failed c + 1 \<rparr>"
      from True s Inr Cons.prems have "syncLoop env (Suc i) rest ?c1 w1 = (Inr c', w')"
        by (simp split: if_splits)
      from Cons.IH [OF this] c1 show ?thesis
        by (simp add: submitted_Cons)
    qed
  qed
qed






text \<open>
  Claim C4, amended: if \<open>isOnline\<close> returns false when the pass reaches an eligible item,
  only that item is left out: it is not submitted, it is counted as failed, the stored
  queue and the remote calls stay as they were, and the pass goes on with the following
  items from that same state, asking \<open>isOnline\<close> again for each. An item that the retry
  policy deems ineligible is likewise only skipped and counted as skipped, the pass
  going on with the following items from the same state. A pass that resolves has
  submitted to \<open>createReport\<close>, in queue order, exactly the items of its snapshot that at
  their own turn were eligible at both checks and online.
\<close>

theorem C4_pass_continues:
  "(shouldRetry (nowLoop (env i)) item \<and> isOnline (netInfo (env i)) = Inr False \<longrightarrow>
      syncLoop env i (item # rest) c w = syncLoop env (Suc i) rest (c\<lparr> failed := failed c + 1 \<rparr>) w) \<and>
   (\<not> shouldRetry (nowLoop (env i)) item \<longrightarrow>
      syncLoop env i (item # rest) c w = syncLoop env (Suc i) rest (c\<lparr> skipped := skipped c + 1 \<rparr>) w) \<and>
   (syncPendingReports io env w = (Inr c', w') \<longrightarrow>
      createCalls w' = createCalls w @
        map (\<lambda>k. reportData (getSyncQueue io (stored w) ! k))
          (filter (\<lambda>k. shouldRetry (nowLoop (env k)) (getSyncQueue io (stored w) ! k) \<and>
                        isOnline (netInfo (env k)) = Inr True \<and>
                        shouldRetry (nowSingle (env k)) (getSyncQueue io (stored w) ! k))
             [0..<length (getSyncQueue io (stored w))]))"
proof (intro conjI impI)
  assume "shouldRetry (nowLoop (env i)) item \<and> isOnline (netInfo (env i)) = Inr False"
  then show "syncLoop env i (item # rest) c w = syncLoop env (Suc i) rest (c\<lparr> failed := failed c + 1 \<rparr>) w"
    by (simp add: syncSingleReport_def trySync_def)
next
  assume "\<not> shouldRetry (nowLoop (env i)) item"
  then show "syncLoop env i (item # rest) c w = syncLoop env (Suc i) rest (c\<lparr> skipped := skipped c + 1 \<rparr>) w"
    by simp
next
  assume "syncPendingReports io env w = (Inr c', w')"
  then have "createCalls w' = createCalls w @ submitted env 0 (getSyncQueue io (stored w))"
    unfolding syncPendingReports_def by (rule syncLoop_createCalls)
  then show "createCalls w' = createCalls w @
        map (\<lambda>k. reportData (getSyncQueue io (stored w) ! k))
          (filter (\<lambda>k. shouldRetry (nowLoop (env k)) (getSyncQueue io (stored w) ! k) \<and>
                        isOnline (netInfo (env k)) = Inr True \<and>
                        shouldRetry (nowSingle (env k)) (getSyncQueue io (stored w) ! k))
             [0..<length (getSyncQueue io (stored w))])"
    by (simp add: submitted_nth submits_def)
qed

subsection \<open>The pass on concrete queues\<close>


text \<open>
  Claim C4, as stated, fails: \<open>isOnline\<close> answers false for the first item, and the pass
  still goes on to the second item, submits it and removes it from the queue.
\<close>

theorem C4_counterexample:
  "isOnline (netInfo (answersWith False (Inr ''report_0''))) = Inr False \<and>
   syncPendingReports io_ok (\<lambda>i. if i = 0 then answersWith False (Inr ''report_0'') else answersWith True (Inr ''report_1''))
     (world0 [mkItem ''sync_a'' 0 None, mkItem ''sync_b'' 0 None])
   = (Inr \<lparr> synced = 1, failed = 1, skipped = 0 \<rparr>,
      \<lparr> stored = Some [mkItem ''sync_a'' 0 None], createCalls = [pothole], uploadCalls = [] \<rparr>)"
  by (simp add: eval_defs)


lemma demo_pass:
  "syncPendingReports io_ok demoEnv (world0 demoQueue)
   = (Inr \<lparr> synced = 1, failed = 3, skipped = 1 \<rparr>,
      \<lparr> stored = Some [mkItem ''sync_a'' 0 None, mkItem ''sync_b'' 5 (Some 1700000000000),
          (mkItem ''sync_d'' 0 None)\<lparr> retryCount := 1, lastAttempt := Some 1700000100002,
             error := Some ''timeout of 30000ms exceeded'' \<rparr>],
        createCalls = [pothole, pothole, pothole], uploadCalls = [] \<rparr>)"
  by (simp add: eval_defs demoQueue_def demoEnv_def)


theorem C4_pass_continues_witness:
  "shouldRetry (nowLoop (demoEnv 0)) (mkItem ''sync_a'' 0 None) \<and>
   isOnline (netInfo (demoEnv 0)) = Inr False \<and>
   \<not> shouldRetry (nowLoop (demoEnv 1)) (mkItem ''sync_b'' 5 (Some 1700000000000)) \<and>
   syncPendingReports io_ok demoEnv (world0 demoQueue)
     = syncLoop demoEnv 2 [mkItem ''sync_c'' 0 None, mkItem ''sync_d'' 0 None, mkItem ''sync_e'' 0 None]
         \<lparr> synced = 0, failed = 1, skipped = 1 \<rparr> (world0 demoQueue) \<and>
   map (\<lambda>k. reportData (demoQueue ! k))
     (filter (\<lambda>k. shouldRetry (nowLoop (demoEnv k)) (demoQueue ! k) \<and>
                   isOnline (netInfo (demoEnv k)) = Inr True \<and>
                   shouldRetry (nowSingle (demoEnv k)) (demoQueue ! k))
        [0..<length demoQueue])
     = [pothole, pothole, pothole]"
proof -
  let ?a = "mkItem ''sync_a'' 0 None"
  let ?b = "mkItem ''sync_b'' 5 (Some 1700000000000)"
  let ?r = "[mkItem ''sync_c'' 0 None, mkItem ''sync_d'' 0 None, mkItem ''sync_e'' 0 None]"
  let ?z = "\<lparr> synced = 0, failed = 0, skipped = 0 \<rparr>"
  have h1: "shouldRetry (nowLoop (demoEnv 0)) ?a \<and> isOnline (netInfo (demoEnv 0)) = Inr False"
    by (simp add: demoEnv_def answersWith_def isOnline_def shouldRetry_def mkItem_def MAX_RETRIES_def falsy_def)
  have h2: "\<not> shouldRetry (nowLoop (demoEnv 1)) ?b"
    by (simp add: shouldRetry_def mkItem_def MAX_RETRIES_def)
  have q: "getSyncQueue io_ok (stored (world0 demoQueue)) = demoQueue"
    by (simp add: world0_def)
  have s1: "syncLoop demoEnv 0 (?a # ?b # ?r) ?z (world0 demoQueue)
      = syncLoop demoEnv (Suc 0) (?b # ?r) (?z\<lparr> failed := failed ?z + 1 \<rparr>) (world0 demoQueue)"
    using C4_pass_continues [of demoEnv 0 ?a "?b # ?r" ?z "world0 demoQueue"] h1 by blast
  have s2: "syncLoop demoEnv (Suc 0) (?b # ?r) (?z\<lparr> failed := failed ?z + 1 \<rparr>) (world0 demoQueue)
      = syncLoop demoEnv (Suc (Suc 0)) ?r (?z\<lparr> failed := failed ?z + 1, skipped := skipped ?z + 1 \<rparr>) (world0 demoQueue)"
    using C4_pass_continues [of demoEnv "Suc 0" ?b ?r "?z\<lparr> failed := failed ?z + 1 \<rparr>" "world0 demoQueue"] h2
    by simp
  have p: "syncPendingReports io_ok demoEnv (world0 demoQueue)
     = syncLoop demoEnv 2 ?r \<lparr> synced = 0, failed = 1, skipped = 1 \<rparr> (world0 demoQueue)"
    unfolding syncPendingReports_def q
    using s1 s2 by (simp add: demoQueue_def numeral_2_eq_2)
  have c: "createCalls (snd (syncPendingReports io_ok demoEnv (world0 demoQueue)))
      = createCalls (world0 demoQueue) @
        map (\<lambda>k. reportData (demoQueue ! k))
          (filter (\<lambda>k. shouldRetry (nowLoop (demoEnv k)) (demoQueue ! k) \<and>
                        isOnline (netInfo (demoEnv k)) = Inr True \<and>
                        shouldRetry (nowSingle (demoEnv k)) (demoQueue ! k))
             [0..<length demoQueue])"
    using C4_pass_continues [of demoEnv 0 ?a "[]" ?z "world0 demoQueue" io_ok
        "\<lparr> synced = 1, failed = 3, skipped = 1 \<rparr>"
        "snd (syncPendingReports io_ok demoEnv (world0 demoQueue))"]
    by (simp add: demo_pass q)
  have m: "map (\<lambda>k. reportData (demoQueue ! k))
     (filter (\<lambda>k. shouldRetry (nowLoop (demoEnv k)) (demoQueue ! k) \<and>
                   isOnline (netInfo (demoEnv k)) = Inr True \<and>
                   shouldRetry (nowSingle (demoEnv k)) (demoQueue ! k))
        [0..<length demoQueue]) = [pothole, pothole, pothole]"
  proof -
    have "createCalls (snd (syncPendingReports io_ok demoEnv (world0 demoQueue))) = [pothole, pothole, pothole]"
      by (simp add: demo_pass)
    moreover have "createCalls (world0 demoQueue) = []" by (simp add: world0_def)
    ultimately show ?thesis using c by simp
  qed
  from h1 h2 p m show ?thesis by simp
qed

section \<open>The retry count: results\<close>

lemma getSyncQueue_cases: "getSyncQueue io st = [] \<or> getSyncQueue io st = getSyncQueue io_ok st"
  by (simp add: getSyncQueue_def io_ok_def split: option.splits)

lemma remove_subset:
  "removeFromSyncQueue io ident st = (r, st') \<Longrightarrow>
   set (getSyncQueue io_ok st') \<subseteq> set (getSyncQueue io_ok st)"
  using getSyncQueue_cases [of io st]
  by (auto simp: removeFromSyncQueue_def setItem_def split: option.splits)

lemma update_effect:
  assumes "updateSyncQueueItem io (item_id x) u st = (r, st')"
    and "set_item_id u = None" and "set_retryCount u = Some (retryCount x + 1)"
  shows "effect x (getSyncQueue io_ok st) (getSyncQueue io_ok st')"
proof (cases "0 \<le> findIndex (\<lambda>item. item_id item = item_id x) (getSyncQueue io st) \<and> setItemErr io = None")
  case False
  then have "st' = st"
    using assms(1) by (auto simp: updateSyncQueueItem_def setItem_def Let_def split: option.splits if_splits)
  then show ?thesis by (simp add: effect_def)
next
  case True
  let ?q = "getSyncQueue io st"
  let ?n = "nat (findIndex (\<lambda>item. item_id item = item_id x) ?q)"
  from True have ne: "?q \<noteq> []" by auto
  with getSyncQueue_cases [of io st] have q: "?q = getSyncQueue io_ok st" by simp
  from True have n: "?n < length ?q"
    using findIndex_bound [of "\<lambda>item. item_id item = item_id x" ?q] by (simp add: nat_less_iff)
  from True have hit: "item_id (?q ! ?n) = item_id x"
    using findIndex_hit [of "\<lambda>item. item_id item = item_id x" ?q] by simp
  from True assms(1) have st': "st' = Some (?q[?n := spread (?q ! ?n) u])"
    by (auto simp: updateSyncQueueItem_def setItem_def Let_def)
  have "item_id (spread (?q ! ?n) u) = item_id x" "retryCount (spread (?q ! ?n) u) = retryCount x + 1"
    using hit assms(2,3) by (simp_all add: spread_def)
  with n hit st' q show ?thesis
    unfolding effect_def by (intro disjI2 exI [of _ ?n] exI [of _ "spread (?q ! ?n) u"]) simp
qed

lemma trySync_subset:
  "trySync a x w = (r, w') \<Longrightarrow> set (getSyncQueue io_ok (stored w')) \<subseteq> set (getSyncQueue io_ok (stored w))"
proof -
  assume t: "trySync a x w = (r, w')"
  obtain r1 st1 where u: "removeFromSyncQueue (removeIo a) (item_id x) (stored w) = (r1, st1)"
    by (cases "removeFromSyncQueue (removeIo a) (item_id x) (stored w)")
  from remove_subset [OF u]
  have sub: "set (getSyncQueue io_ok st1) \<subseteq> set (getSyncQueue io_ok (stored w))" .
  from t u have "stored w' = stored w \<or> stored w' = st1"
    by (auto simp: trySync_def Let_def split: sum.splits if_splits)
  with sub show ?thesis by auto
qed

lemma catchSync_effect:
  assumes "catchSync a x e w = (r, w')"
  shows "effect x (getSyncQueue io_ok (stored w)) (getSyncQueue io_ok (stored w'))"
proof (cases "isNetworkError e")
  case True
  let ?u = "noUpdates\<lparr> set_retryCount := Some (retryCount x + 1),
                       set_lastAttempt := Some (Some (nowCatch a)),
                       set_error := Some (Some (messageOr (message e) ''Network error'')) \<rparr>"
  obtain r1 st1 where u: "updateSyncQueueItem (catchIo a) (item_id x) ?u (stored w) = (r1, st1)"
    by (cases "updateSyncQueueItem (catchIo a) (item_id x) ?u (stored w)")
  have eff: "effect x (getSyncQueue io_ok (stored w)) (getSyncQueue io_ok st1)"
    by (rule update_effect [OF u]) (simp_all add: noUpdates_def)
  show ?thesis
  proof (cases r1)
    case (Inl e')
    with assms True u have "w' = w" by (simp add: catchSync_def)
    then show ?thesis by (simp add: effect_def)
  next
    case (Inr v)
    with assms True u have "stored w' = st1" by (auto simp: catchSync_def)
    with eff show ?thesis by simp
  qed
next
  case False
  obtain r1 st1 where u: "removeFromSyncQueue (catchIo a) (item_id x) (stored w) = (r1, st1)"
    by (cases "removeFromSyncQueue (catchIo a) (item_id x) (stored w)")
  from remove_subset [OF u] have sub: "set (getSyncQueue io_ok st1) \<subseteq> set (getSyncQueue io_ok (stored w))" .
  show ?thesis
  proof (cases r1)
    case (Inl e')
    with assms False u have "w' = w" by (simp add: catchSync_def)
    then show ?thesis by (simp add: effect_def)
  next
    case (Inr v)
    with assms False u have "stored w' = st1" by (auto simp: catchSync_def)
    with sub show ?thesis by (simp add: effect_def)
  qed
qed

lemma stemsFrom_subset:
  "stemsFrom q0 rest cur \<Longrightarrow> set cur' \<subseteq> set cur \<Longrightarrow> stemsFrom q0 rest cur'"
  unfolding stemsFrom_def by blast

lemma stemsFrom_tail: "stemsFrom q0 (x # rest) cur \<Longrightarrow> stemsFrom q0 rest cur"
  unfolding stemsFrom_def by (meson list.set_intros(2))

lemma stemsFrom_Nil: "stemsFrom q0 rest cur \<Longrightarrow> stemsFrom q0 [] cur"
  unfolding stemsFrom_def by fastforce

lemma distinct_ids_eq:
  "distinct (map item_id q) \<Longrightarrow> x \<in> set q \<Longrightarrow> y \<in> set q \<Longrightarrow> item_id x = item_id y \<Longrightarrow> x = y"
  by (meson distinct_map inj_onD)

lemma stemsFrom_effect:
  assumes d: "distinct (map item_id q0)" and x0: "x \<in> set q0" and xr: "x \<notin> set rest"
    and inv: "stemsFrom q0 (x # rest) cur" and eff: "effect x cur cur'"
  shows "stemsFrom q0 rest cur'"
  using eff unfolding effect_def
proof
  assume "set cur' \<subseteq> set cur"
  with stemsFrom_tail [OF inv] show ?thesis by (rule stemsFrom_subset)
next
  assume "\<exists>n y. n < length cur \<and> item_id (cur ! n) = item_id x \<and> item_id y = item_id x \<and>
         retryCount y = retryCount x + 1 \<and> cur' = cur[n := y]"
  then obtain n y where n: "n < length cur" and idn: "item_id (cur ! n) = item_id x"
    and idy: "item_id y = item_id x" and rc: "retryCount y = retryCount x + 1"
    and cur': "cur' = cur[n := y]"
    by blast
  show ?thesis
    unfolding stemsFrom_def
  proof
    fix z assume "z \<in> set cur'"
    with cur' have "z = y \<or> z \<in> set cur"
      using set_update_subset_insert [of cur n y] by auto
    then show "\<exists>x'\<in>set q0. item_id x' = item_id z \<and> retryCount x' \<le> retryCount z \<and>
        (x' \<in> set rest \<longrightarrow> z = x')"
    proof
      assume "z = y"
      with x0 xr idy rc show ?thesis by (intro bexI [of _ x]) simp_all
    next
      assume "z \<in> set cur"
      with stemsFrom_tail [OF inv] show ?thesis unfolding stemsFrom_def by blast
    qed
  qed
qed

lemma syncSingleReport_effect:
  assumes "syncSingleReport a x w = (r, w')"
  shows "effect x (getSyncQueue io_ok (stored w)) (getSyncQueue io_ok (stored w'))"
proof -
  obtain t w1 where t: "trySync a x w = (t, w1)" by (cases "trySync a x w")
  from trySync_subset [OF t]
  have sub: "set (getSyncQueue io_ok (stored w1)) \<subseteq> set (getSyncQueue io_ok (stored w))" .
  show ?thesis
  proof (cases t)
    case (Returned res)
    with assms t have "w' = w1" by (simp add: syncSingleReport_def)
    with sub show ?thesis by (simp add: effect_def)
  next
    case (Thrown e)
    with assms t have c: "catchSync a x e w1 = (r, w')" by (simp add: syncSingleReport_def)
    have same: "stored w1 = stored w"
      using t Thrown
      by (auto simp: trySync_def Let_def split: sum.splits if_splits prod.splits)
    from catchSync_effect [OF c] same show ?thesis by simp
  qed
qed


lemma syncLoop_stemsFrom:
  assumes "distinct (map item_id q0)" and "set rest \<subseteq> set q0" and "distinct rest"
    and "stemsFrom q0 rest (getSyncQueue io_ok (stored w))"
    and "syncLoop env i rest c w = (r, w')"
  shows "stemsFrom q0 [] (getSyncQueue io_ok (stored w'))"
  using assms
proof (induction rest arbitrary: i c w)
  case Nil
  then show ?case by simp
next
  case (Cons x rest)
  have sub: "set rest \<subseteq> set q0" and dr: "distinct rest" and x0: "x \<in> set q0" and xr: "x \<notin> set rest"
    using Cons.prems(2,3) by auto
  show ?case
  proof (cases "shouldRetry (nowLoop (env i)) x")
    case False
    with Cons.prems(5) have l: "syncLoop env (Suc i) rest (c\<lparr> skipped := skipped c + 1 \<rparr>) w = (r, w')"
      by simp
    from Cons.IH [OF Cons.prems(1) sub dr stemsFrom_tail [OF Cons.prems(4)] l] show ?thesis .
  next
    case True
    obtain r1 w1 where s: "syncSingleReport (env i) x w = (r1, w1)"
      by (cases "syncSingleReport (env i) x w")
    from stemsFrom_effect [OF Cons.prems(1) x0 xr Cons.prems(4) syncSingleReport_effect [OF s]]
    have inv1: "stemsFrom q0 rest (getSyncQueue io_ok (stored w1))" .
    show ?thesis
    proof (cases r1)
      case (Inl e)
      with True s Cons.prems(5) have "w' = w1" by simp
      with stemsFrom_Nil [OF inv1] show ?thesis by simp
    next
      case (Inr res)
      let ?c1 = "if success res then c\<lparr> synced := synced c + 1 \<rparr> else c\<lparr> failed := failed c + 1 \<rparr>"
      from True s Inr Cons.prems(5) have l: "syncLoop env (Suc i) rest ?c1 w1 = (r, w')"
        by (simp split: if_splits)
      from Cons.IH [OF Cons.prems(1) sub dr inv1 l] show ?thesis .
    qed
  qed
qed

lemma stemsFrom_self: "stemsFrom q q q"
  unfolding stemsFrom_def by blast

lemma stemsFrom_nondecreasing:
  assumes d: "distinct (map item_id q0)" and inv: "stemsFrom q0 [] cur"
  shows "retryNondecreasing q0 cur"
  unfolding retryNondecreasing_def
proof (intro ballI impI)
  fix x y assume x: "x \<in> set q0" and y: "y \<in> set cur" and e: "item_id y = item_id x"
  from inv y obtain x' where x': "x' \<in> set q0" "item_id x' = item_id y" "retryCount x' \<le> retryCount y"
    unfolding stemsFrom_def by blast
  from distinct_ids_eq [OF d x x'(1)] e x'(2) have "x = x'" by simp
  with x'(3) show "retryCount x \<le> retryCount y" by simp
qed

lemma subset_nondecreasing:
  "distinct (map item_id q) \<Longrightarrow> set q' \<subseteq> set q \<Longrightarrow> retryNondecreasing q q'"
proof -
  assume d: "distinct (map item_id q)" and s: "set q' \<subseteq> set q"
  from stemsFrom_Nil [OF stemsFrom_self] have "stemsFrom q [] q" .
  then have "stemsFrom q [] q'" using s by (rule stemsFrom_subset)
  with d show ?thesis by (rule stemsFrom_nondecreasing)
qed

lemma removeMatching_subset:
  "removeMatching ios k ms st = (r, st') \<Longrightarrow>
   set (getSyncQueue io_ok st') \<subseteq> set (getSyncQueue io_ok st)"
proof (induction ms arbitrary: k st)
  case Nil
  then show ?case by simp
next
  case (Cons m ms)
  obtain r1 st1 where u: "removeFromSyncQueue (ios k) (item_id m) st = (r1, st1)"
    by (cases "removeFromSyncQueue (ios k) (item_id m) st")
  from remove_subset [OF u] have sub: "set (getSyncQueue io_ok st1) \<subseteq> set (getSyncQueue io_ok st)" .
  show ?case
  proof (cases r1)
    case (Inl e)
    with u Cons.prems have "st' = st1" by simp
    with sub show ?thesis by simp
  next
    case (Inr v)
    with u Cons.prems have "removeMatching ios (Suc k) ms st1 = (r, st')" by simp
    from Cons.IH [OF this] sub show ?thesis by blast
  qed
qed

lemma pass_nondecreasing:
  assumes d: "distinct (map item_id (getSyncQueue io_ok (stored w)))"
  shows "retryNondecreasing (getSyncQueue io_ok (stored w))
           (getSyncQueue io_ok (stored (snd (syncPendingReports io env w))))"
proof -
  let ?q0 = "getSyncQueue io_ok (stored w)"
  obtain r w' where p: "syncPendingReports io env w = (r, w')"
    by (cases "syncPendingReports io env w")
  from getSyncQueue_cases [of io "stored w"] show ?thesis
  proof
    assume "getSyncQueue io (stored w) = []"
    with p have "w' = w" by (simp add: syncPendingReports_def)
    with p d show ?thesis by (simp add: subset_nondecreasing)
  next
    assume "getSyncQueue io (stored w) = ?q0"
    with p have l: "syncLoop env 0 ?q0 \<lparr> synced = 0, failed = 0, skipped = 0 \<rparr> w = (r, w')"
      by (simp add: syncPendingReports_def)
    from d have dq: "distinct ?q0" by (simp add: distinct_map)
    from syncLoop_stemsFrom [OF d subset_refl dq stemsFrom_self l]
    have "stemsFrom ?q0 [] (getSyncQueue io_ok (stored w'))" .
    from stemsFrom_nondecreasing [OF d this] p show ?thesis by simp
  qed
qed

text \<open>
  Run alone, with no other operation between its reads and its writes, each core
  operation leaves the retry counts of a queue of distinct ids non-decreasing, whatever
  AsyncStorage does. \<open>addToSyncQueue\<close> appends an item with \<open>retryCount\<close> 0 behind the items
  it read, which it does not change (or rejects and changes nothing);
  \<open>removeFromSyncQueue\<close>, the duplicate reconciliation and a whole sync pass leave every
  item that is still in the queue with a retry count at least the one it had.
\<close>

lemma retryCount_monotone_alone:
  assumes "distinct (map item_id (getSyncQueue io_ok (stored w)))"
  shows "(case addToSyncQueue io ident now rd ph (stored w) of
            (Inl e, st') \<Rightarrow> st' = stored w
          | (Inr i, st') \<Rightarrow> \<exists>item. item_id item = ident \<and> retryCount item = 0 \<and>
               getSyncQueue io_ok st' = getSyncQueue io (stored w) @ [item]) \<and>
         retryNondecreasing (getSyncQueue io_ok (stored w))
           (getSyncQueue io_ok (snd (removeFromSyncQueue io ident (stored w)))) \<and>
         retryNondecreasing (getSyncQueue io_ok (stored w))
           (getSyncQueue io_ok (cleanSyncQueue io ios jsDistance lat lng ttl descr ty (stored w))) \<and>
         retryNondecreasing (getSyncQueue io_ok (stored w))
           (getSyncQueue io_ok (stored (snd (syncPendingReports io env w))))"
proof -
  have a: "case addToSyncQueue io ident now rd ph (stored w) of
            (Inl e, st') \<Rightarrow> st' = stored w
          | (Inr i, st') \<Rightarrow> \<exists>item. item_id item = ident \<and> retryCount item = 0 \<and>
               getSyncQueue io_ok st' = getSyncQueue io (stored w) @ [item]"
    by (auto simp: addToSyncQueue_def setItem_def split: option.splits)
  have b: "retryNondecreasing (getSyncQueue io_ok (stored w))
           (getSyncQueue io_ok (snd (removeFromSyncQueue io ident (stored w))))"
    by (rule subset_nondecreasing [OF assms], rule remove_subset) (rule surjective_pairing)
  have c: "retryNondecreasing (getSyncQueue io_ok (stored w))
           (getSyncQueue io_ok (cleanSyncQueue io ios jsDistance lat lng ttl descr ty (stored w)))"
    unfolding cleanSyncQueue_def Let_def
    by (rule subset_nondecreasing [OF assms], rule removeMatching_subset) (rule surjective_pairing)
  from a b c pass_nondecreasing [OF assms] show ?thesis by blast
qed


lemma afterPassB_eval:
  "afterPassB = \<lparr> stored = Some [(mkItem ''sync_a'' 0 None)\<lparr> retryCount := 1,
        lastAttempt := Some 1700000001000, error := Some ''timeout of 30000ms exceeded'' \<rparr>],
      createCalls = [pothole], uploadCalls = [] \<rparr>"
  by (simp add: afterPassB_def raceStart_def answersAt_def eval_defs)

lemma afterPassC_eval:
  "afterPassC = \<lparr> stored = Some [(mkItem ''sync_a'' 0 None)\<lparr> retryCount := 2,
        lastAttempt := Some 1700000126000, error := Some ''timeout of 30000ms exceeded'' \<rparr>],
      createCalls = [pothole, pothole], uploadCalls = [] \<rparr>"
  by (simp add: afterPassC_def afterPassB_eval answersAt_def eval_defs)

text \<open>
  Claim C9 on the code: in its \<open>catch\<close> block a pass writes the retry count of its own
  copy of the item plus one. Pass A read the item with retry count 0; passes B and C
  have meanwhile raised the stored count to 1 and to 2; when the request of pass A
  times out, pass A writes 0 + 1, and the retry count of the item, which is still in the
  queue, falls from 2 to 1.
\<close>

theorem C9_stale_copy_lowers_retryCount:
  "map retryCount (getSyncQueue io_ok (stored raceStart)) = [0] \<and>
   map retryCount (getSyncQueue io_ok (stored afterPassB)) = [1] \<and>
   map retryCount (getSyncQueue io_ok (stored afterPassC)) = [2] \<and>
   map retryCount (getSyncQueue io_ok (stored afterPassA)) = [1] \<and>
   map item_id (getSyncQueue io_ok (stored afterPassC)) = map item_id (getSyncQueue io_ok (stored afterPassA))"
  by (simp add: afterPassA_def afterPassC_eval raceStart_def noCounts_def answersAt_def eval_defs
      afterPassB_eval)

section \<open>Duplicate reconciliation: results\<close>

lemma remove_ok:
  "removeFromSyncQueue io_ok ident st
   = (Inr (), Some (filter (\<lambda>item. item_id item \<noteq> ident) (getSyncQueue io_ok st)))"
  by (simp add: removeFromSyncQueue_def)

lemma removeMatching_ok:
  assumes "\<forall>k. ios k = io_ok"
  shows "getSyncQueue io_ok (snd (removeMatching ios k ms st))
         = filter (\<lambda>x. item_id x \<notin> item_id ` set ms) (getSyncQueue io_ok st)"
proof (induction ms arbitrary: k st)
  case Nil
  show ?case by simp
next
  case (Cons m ms)
  have "removeMatching ios k (m # ms) st
      = removeMatching ios (Suc k) ms (Some (filter (\<lambda>item. item_id item \<noteq> item_id m) (getSyncQueue io_ok st)))"
    using assms by (simp add: remove_ok)
  then show ?case
    by (auto simp add: Cons.IH simp del: removeMatching.simps intro: filter_cong)
qed


lemma matching_ids:
  assumes d: "distinct (map item_id q)" and x: "x \<in> set q"
  shows "(item_id x \<in> item_id ` set (filter P q)) = P x"
proof
  assume "item_id x \<in> item_id ` set (filter P q)"
  then obtain y where y: "y \<in> set q" "P y" "item_id x = item_id y" by auto
  from distinct_ids_eq [OF d x y(1) y(3)] y(2) show "P x" by simp
next
  assume "P x"
  with x show "item_id x \<in> item_id ` set (filter P q)" by auto
qed

text \<open>
  The structure of the reconciliation, for whatever the double-precision computation
  \<open>jsDistance\<close> returns: with working storage and a queue of distinct ids, the items left in
  the queue are exactly those that fail the test of the filter callback, in their order.
\<close>

lemma cleanSyncQueue_exact:
  assumes "distinct (map item_id (getSyncQueue io_ok st))" and "\<forall>k. ios k = io_ok"
  shows "getSyncQueue io_ok (cleanSyncQueue io_ok ios jsDistance lat lng ttl descr ty st)
     = filter (\<lambda>item. \<not> (title (reportData item) = ttl \<and>
                           description (reportData item) = descr \<and>
                           Some (rtype (reportData item)) = ty \<and>
                           jsDistance (latitude (reportData item)) (longitude (reportData item)) lat lng < 10))
         (getSyncQueue io_ok st)"
proof -
  let ?q = "getSyncQueue io_ok st"
  let ?P = "isMatching jsDistance lat lng ttl descr ty"
  have "getSyncQueue io_ok (cleanSyncQueue io_ok ios jsDistance lat lng ttl descr ty st)
      = filter (\<lambda>x. item_id x \<notin> item_id ` set (filter ?P ?q)) ?q"
    by (simp add: cleanSyncQueue_def Let_def removeMatching_ok [OF assms(2)])
  also have "\<dots> = filter (\<lambda>x. \<not> ?P x) ?q"
  proof (rule filter_cong [OF refl])
    fix x assume "x \<in> set ?q"
    from matching_ids [OF assms(1) this, of ?P]
    show "(item_id x \<notin> item_id ` set (filter ?P ?q)) = (\<not> ?P x)" by blast
  qed
  also have "\<dots> = filter (\<lambda>item. \<not> (title (reportData item) = ttl \<and>
                           description (reportData item) = descr \<and>
                           Some (rtype (reportData item)) = ty \<and>
                           jsDistance (latitude (reportData item)) (longitude (reportData item)) lat lng < 10)) ?q"
    by (rule filter_cong) (auto simp: isMatching_def Let_def)
  finally show ?thesis .
qed

section \<open>The coordinating hook: results\<close>

text \<open>
  Across renders the guard works: callbacks created by a render that follows the start
  of a pass see \<open>isSyncing\<close> true, and \<open>syncNow\<close> does nothing.
\<close>

lemma syncNow_after_rerender:
  "isConnected r = Some True \<Longrightarrow> \<not> isSyncing r \<Longrightarrow>
   syncNow (rerender conn (syncNow r h)) (syncNow r h) = syncNow r h"
  by (simp add: syncNow_def performSync_begin_def rerender_def)

text \<open>
  Claim C5 on the code: two calls of \<open>syncNow\<close> in immediate succession are calls of the
  callback of one render. For an idle hook that is online, both calls find the render's
  constant \<open>isSyncing\<close> false, and each starts a pass: two passes run at the same time.
\<close>

theorem C5_two_calls_two_passes:
  "passesRunning (syncNow (rerender (Some True) idleHook)
      (syncNow (rerender (Some True) idleHook) idleHook)) = 2 \<and>
   passesStarted (syncNow (rerender (Some True) idleHook)
      (syncNow (rerender (Some True) idleHook) idleHook)) = 2"
  by (simp add: syncNow_def performSync_begin_def rerender_def idleHook_def)

end
